theory Spec2Isabelle
  imports Main
begin

section \<open>JavaScript strings\<close>

text \<open>
  A JavaScript string is a sequence of UTF-16 code units. A code unit is modelled by its
  number; a source literal is written \<open>str ''...''\<close>.
\<close>

type_synonym code_unit = nat
type_synonym jsstring = "code_unit list"

definition str :: "string \<Rightarrow> jsstring" where
  "str = map of_char"

text \<open>
  The characters removed by \<^verbatim>\<open>String.prototype.trim\<close> and matched by the regular
  expression class \<^verbatim>\<open>\s\<close>: ECMAScript WhiteSpace and LineTerminator (tab, LF, VT, FF,
  CR, space, NBSP, U+1680, U+2000 to U+200A, U+2028, U+2029, U+202F, U+205F, U+3000,
  U+FEFF).
\<close>

definition is_space :: "code_unit \<Rightarrow> bool" where
  "is_space c \<longleftrightarrow>
     c = 9 \<or> c = 10 \<or> c = 11 \<or> c = 12 \<or> c = 13 \<or> c = 32 \<or> c = 160 \<or> c = 5760 \<or>
     (8192 \<le> c \<and> c \<le> 8202) \<or> c = 8232 \<or> c = 8233 \<or> c = 8239 \<or> c = 8287 \<or>
     c = 12288 \<or> c = 65279"

definition trim :: "jsstring \<Rightarrow> jsstring" where
  "trim s = rev (dropWhile is_space (rev (dropWhile is_space s)))"

definition startsWith :: "jsstring \<Rightarrow> jsstring \<Rightarrow> bool" where
  "startsWith s p \<longleftrightarrow> take (length p) s = p"

text \<open>
  \<^verbatim>\<open>s.substring(a, b)\<close>: both indices are clamped to \<open>0 .. length s\<close> and swapped when
  the first is the larger one.
\<close>

definition substring :: "jsstring \<Rightarrow> int \<Rightarrow> int \<Rightarrow> jsstring" where
  "substring s a b =
     (let n = int (length s);
          a' = min (max a 0) n;
          b' = min (max b 0) n;
          from = min a' b';
          to = max a' b'
      in take (nat (to - from)) (drop (nat from) s))"

definition is_digit :: "code_unit \<Rightarrow> bool" where
  "is_digit c \<longleftrightarrow> 48 \<le> c \<and> c \<le> 57"

text \<open>ECMAScript LineTerminator: LF, CR, U+2028, U+2029.\<close>

definition is_line_terminator :: "code_unit \<Rightarrow> bool" where
  "is_line_terminator c \<longleftrightarrow> c = 10 \<or> c = 13 \<or> c = 8232 \<or> c = 8233"

text \<open>\<^verbatim>\<open>text.split('\n')\<close>: the pieces between line feeds; the empty string gives one empty piece.\<close>

function split_lines :: "jsstring \<Rightarrow> jsstring list" where
  "split_lines s =
     (case dropWhile (\<lambda>c. c \<noteq> 10) s of
        [] \<Rightarrow> [s]
      | _ # rest \<Rightarrow> takeWhile (\<lambda>c. c \<noteq> 10) s # split_lines rest)"
  by pat_completeness auto
termination
proof (relation "measure length")
  show "wf (measure length)" by simp
next
  fix s :: jsstring and x rest
  assume "dropWhile (\<lambda>c. c \<noteq> 10) s = x # rest"
  then have "length (x # rest) \<le> length s"
    by (metis length_dropWhile_le)
  then show "(rest, s) \<in> measure length" by simp
qed

text \<open>
  A value that may be \<^verbatim>\<open>undefined\<close> is an option. \<open>falsy v\<close> is \<^verbatim>\<open>!v\<close> for a string
  or \<^verbatim>\<open>undefined\<close>: only \<^verbatim>\<open>undefined\<close> and the empty string are falsy.
\<close>

definition falsy :: "jsstring option \<Rightarrow> bool" where
  "falsy v \<longleftrightarrow> (case v of None \<Rightarrow> True | Some s \<Rightarrow> s = [])"

section \<open>Errors and try/catch\<close>

datatype js_error = Error jsstring | TypeError | SyntaxError | ApiError jsstring

text \<open>
  A computation that may throw returns \<open>js_error + 'a\<close>, \<open>Inl\<close> the thrown value.
  \<open>try_catch body handler\<close> is \<^verbatim>\<open>try { body } catch (error) { handler }\<close>.
\<close>

definition and_then :: "js_error + 'a \<Rightarrow> ('a \<Rightarrow> js_error + 'b) \<Rightarrow> js_error + 'b" where
  "and_then x f = (case x of Inl e \<Rightarrow> Inl e | Inr v \<Rightarrow> f v)"

definition try_catch :: "js_error + 'a \<Rightarrow> (js_error \<Rightarrow> js_error + 'a) \<Rightarrow> js_error + 'a" where
  "try_catch body handler = (case body of Inl e \<Rightarrow> handler e | Inr v \<Rightarrow> Inr v)"

section \<open>The response normalizer\<close>

text \<open>
  \<^verbatim>\<open>JSON.parse\<close> is the platform's parser; it is a parameter \<open>parse\<close> of the model,
  returning the parsed value or the thrown SyntaxError. The argument \<open>text\<close> is the
  \<^verbatim>\<open>response.text\<close> of the gateway, which may be \<^verbatim>\<open>undefined\<close>; \<^verbatim>\<open>text.trim()\<close> then
  throws a TypeError.
\<close>

definition cleanAndParseJson :: "(jsstring \<Rightarrow> js_error + 'v) \<Rightarrow> jsstring option \<Rightarrow> js_error + 'v" where
  "cleanAndParseJson parse text =
     (case text of
        None \<Rightarrow> Inl TypeError
      | Some text \<Rightarrow>
          (let cleanedText = trim text;
               cleanedText =
                 (if startsWith cleanedText (str ''```json'')
                  then trim (substring cleanedText 7 (int (length cleanedText) - 3))
                  else if startsWith cleanedText (str ''```'')
                  then trim (substring cleanedText 3 (int (length cleanedText) - 3))
                  else cleanedText)
           in parse cleanedText))"

section \<open>Regular expressions\<close>

text \<open>
  The pattern language used by the program: literal characters, the classes \<^verbatim>\<open>\d\<close>,
  \<^verbatim>\<open>\s\<close> and \<^verbatim>\<open>.\<close>, sequence, the greedy quantifiers \<^verbatim>\<open>?\<close> and \<^verbatim>\<open>*\<close>, the
  lazy quantifier \<^verbatim>\<open>*?\<close> and capturing groups. \<^verbatim>\<open>r+\<close> is \<open>r\<close> followed by \<^verbatim>\<open>r*\<close>.
\<close>

datatype atom = Lit code_unit | Digit | Space | Dot

fun atom_matches :: "atom \<Rightarrow> code_unit \<Rightarrow> bool" where
  "atom_matches (Lit a) c \<longleftrightarrow> c = a"
| "atom_matches Digit c \<longleftrightarrow> is_digit c"
| "atom_matches Space c \<longleftrightarrow> is_space c"
| "atom_matches Dot c \<longleftrightarrow> \<not> is_line_terminator c"

datatype regex =
    Empty
  | Atom atom
  | Seq regex regex
  | Opt regex
  | Star regex
  | LazyStar regex
  | Group nat regex

definition Plus :: "regex \<Rightarrow> regex" where
  "Plus r = Seq r (Star r)"

definition seq :: "regex list \<Rightarrow> regex" where
  "seq rs = foldr Seq rs Empty"

definition lits :: "string \<Rightarrow> regex" where
  "lits cs = seq (map (\<lambda>c. Atom (Lit (of_char c))) cs)"

type_synonym captures = "nat \<Rightarrow> jsstring option"

text \<open>
  The backtracking matcher, in the continuation style in which ECMAScript defines pattern
  semantics: \<open>m r s caps k\<close> matches \<open>r\<close> at the front of the remaining input \<open>s\<close> and
  hands the rest of the input and the captures to the continuation \<open>k\<close>; \<open>None\<close> is
  failure, and the alternatives are tried in the order of the language (greedy: one more
  iteration first; lazy: the continuation first). An iteration of a quantifier that
  consumes nothing fails, as in ECMAScript's RepeatMatcher. No group of the program's
  patterns stands under a quantifier, so the reset of captures at each iteration has
  nothing to reset and is not modelled.
\<close>

fun m :: "regex \<Rightarrow> jsstring \<Rightarrow> captures \<Rightarrow> (jsstring \<Rightarrow> captures \<Rightarrow> captures option) \<Rightarrow> captures option" where
  "m Empty s caps k = k s caps"
| "m (Atom a) s caps k =
     (case s of [] \<Rightarrow> None | c # s' \<Rightarrow> if atom_matches a c then k s' caps else None)"
| "m (Seq r1 r2) s caps k = m r1 s caps (\<lambda>s' caps'. m r2 s' caps' k)"
| "m (Opt r) s caps k =
     (case m r s caps (\<lambda>s' caps'. if length s' < length s then k s' caps' else None) of
        Some res \<Rightarrow> Some res
      | None \<Rightarrow> k s caps)"
| "m (Star r) s caps k =
     (case m r s caps (\<lambda>s' caps'. if length s' < length s then m (Star r) s' caps' k else None) of
        Some res \<Rightarrow> Some res
      | None \<Rightarrow> k s caps)"
| "m (LazyStar r) s caps k =
     (case k s caps of
        Some res \<Rightarrow> Some res
      | None \<Rightarrow> m r s caps (\<lambda>s' caps'. if length s' < length s then m (LazyStar r) s' caps' k else None))"
| "m (Group n r) s caps k =
     m r s caps (\<lambda>s' caps'. k s' (caps'(n := Some (take (length s - length s') s))))"

definition no_captures :: captures where
  "no_captures = (\<lambda>_. None)"

text \<open>
  \<^verbatim>\<open>s.match(r)\<close> for a pattern without the global flag: the match at the leftmost start
  position that has one, or \<open>None\<close> for \<^verbatim>\<open>null\<close>. The result gives the text of each
  group.
\<close>

fun regex_exec :: "regex \<Rightarrow> jsstring \<Rightarrow> captures option" where
  "regex_exec r s =
     (case m r s no_captures (\<lambda>_ caps. Some caps) of
        Some caps \<Rightarrow> Some caps
      | None \<Rightarrow> (case s of [] \<Rightarrow> None | _ # s' \<Rightarrow> regex_exec r s'))"

text \<open>
  \<^verbatim>\<open>match[i]\<close> as the receiver of a method call: on a group that is \<^verbatim>\<open>undefined\<close> the
  call throws a TypeError.
\<close>

definition group :: "captures \<Rightarrow> nat \<Rightarrow> js_error + jsstring" where
  "group match i = (case match i of None \<Rightarrow> Inl TypeError | Some g \<Rightarrow> Inr g)"

section \<open>Trending topics\<close>

text \<open>
  A JavaScript number is an IEEE 754 double. The numbers this program computes are the
  doubles whose value is an integer (\<open>Num n\<close>, with \<open>n\<close> the value), negative zero, the
  two infinities and NaN.
\<close>

datatype number = Num int | NegZero | Infinity | NegInfinity | NaN

fun negate :: "number \<Rightarrow> number" where
  "negate (Num n) = (if n = 0 then NegZero else Num (- n))"
| "negate NegZero = Num 0"
| "negate Infinity = NegInfinity"
| "negate NegInfinity = Infinity"
| "negate NaN = NaN"

text \<open>The number of binary digits of a natural number.\<close>

fun bit_length :: "nat \<Rightarrow> nat" where
  "bit_length n = (if n = 0 then 0 else Suc (bit_length (n div 2)))"

text \<open>
  The Number value of a natural number: the number itself below \<open>2 ^ 53\<close>; above, the
  nearest double, which keeps the 53 leading binary digits \<open>q\<close> and rounds on the rest
  \<open>r\<close> (to the nearest, a tie to the even \<open>q\<close>); Infinity when the rounded value reaches
  \<open>2 ^ 1024\<close>.
\<close>

definition to_double :: "nat \<Rightarrow> number" where
  "to_double n =
     (if n < 2 ^ 53 then Num (int n)
      else
        (let e = bit_length n - 53;
             q = n div 2 ^ e;
             r = n mod 2 ^ e;
             half = 2 ^ (e - 1);
             q' = (if half < r \<or> (r = half \<and> odd q) then q + 1 else q);
             v = q' * 2 ^ e
         in if 2 ^ 1024 \<le> v then Infinity else Num (int v)))"

definition digits_value :: "jsstring \<Rightarrow> nat" where
  "digits_value ds = foldl (\<lambda>acc c. 10 * acc + (c - 48)) 0 ds"

text \<open>
  \<^verbatim>\<open>parseInt(s, 10)\<close>: leading white space is skipped, then an optional sign, then the
  longest run of decimal digits; NaN when there is no digit, and otherwise the Number
  value of the digits, negated after a minus sign. (ECMAScript lets an implementation
  replace the digits after the twentieth by zeros before it rounds; the model rounds the
  exact value, as the engines do.)
\<close>

definition parseInt10 :: "jsstring \<Rightarrow> number" where
  "parseInt10 s =
     (let t = dropWhile is_space s;
          (negative, t) =
            (case t of
               [] \<Rightarrow> (False, t)
             | c # rest \<Rightarrow> if c = 45 then (True, rest) else if c = 43 then (False, rest) else (False, t));
          z = takeWhile is_digit t
      in if z = [] then NaN
         else if negative then negate (to_double (digits_value z))
         else to_double (digits_value z))"

text \<open>
  \<^verbatim>\<open>s.replace(/^"|"$/g, '')\<close>: a double quote at the start of the string is removed, and a
  double quote at the end of the string (when it is not that same character) is removed.
\<close>

definition strip_quotes :: "jsstring \<Rightarrow> jsstring" where
  "strip_quotes s =
     (let s1 = (case s of [] \<Rightarrow> [] | c # rest \<Rightarrow> if c = 34 then rest else s)
      in if s1 \<noteq> [] \<and> last s1 = 34 then butlast s1 else s1)"

record trending_topic =
  topic :: jsstring
  risk :: jsstring
  score :: number

text \<open>\<^verbatim>\<open>/(?:\d+\.\s*)?(.*?)\s*-\s*Risk:\s*(.*?)\s*-\s*Credibility:\s*(\d+)/\<close>\<close>

definition topic_re :: regex where
  "topic_re = seq
     [Opt (seq [Plus (Atom Digit), Atom (Lit (of_char CHR ''.'')), Star (Atom Space)]),
      Group 1 (LazyStar (Atom Dot)),
      Star (Atom Space), Atom (Lit (of_char CHR ''-'')), Star (Atom Space),
      lits ''Risk:'', Star (Atom Space),
      Group 2 (LazyStar (Atom Dot)),
      Star (Atom Space), Atom (Lit (of_char CHR ''-'')), Star (Atom Space),
      lits ''Credibility:'', Star (Atom Space),
      Group 3 (Plus (Atom Digit))]"

text \<open>\<^verbatim>\<open>ToString\<close> of a string or \<^verbatim>\<open>undefined\<close>, as \<^verbatim>\<open>parseInt\<close> applies it to its argument.\<close>

definition to_string :: "jsstring option \<Rightarrow> jsstring" where
  "to_string v = (case v of None \<Rightarrow> str ''undefined'' | Some s \<Rightarrow> s)"

text \<open>
  The callback of \<^verbatim>\<open>map\<close>: the record of a line that matches, \<open>None\<close> (\<^verbatim>\<open>null\<close>) for a
  line that does not. The fields are computed in the order of the object literal.
\<close>

definition parse_line :: "jsstring \<Rightarrow> js_error + trending_topic option" where
  "parse_line line =
     (case regex_exec topic_re line of
        Some match \<Rightarrow>
          and_then (group match 1) (\<lambda>g1.
          and_then (group match 2) (\<lambda>g2.
            Inr (Some \<lparr>topic = strip_quotes (trim g1), risk = trim g2,
                       score = parseInt10 (to_string (match 3))\<rparr>)))
      | None \<Rightarrow> Inr None)"

text \<open>\<^verbatim>\<open>xs.map(f)\<close> with a callback that may throw: the first throw ends the loop.\<close>

fun map_throwing :: "('a \<Rightarrow> js_error + 'b) \<Rightarrow> 'a list \<Rightarrow> js_error + 'b list" where
  "map_throwing f [] = Inr []"
| "map_throwing f (x # xs) =
     and_then (f x) (\<lambda>y. and_then (map_throwing f xs) (\<lambda>ys. Inr (y # ys)))"

text \<open>\<^verbatim>\<open>.filter(item => item !== null)\<close>, with the type guard that strips the \<^verbatim>\<open>null\<close> type.\<close>

fun filter_non_null :: "'a option list \<Rightarrow> 'a list" where
  "filter_non_null [] = []"
| "filter_non_null (None # xs) = filter_non_null xs"
| "filter_non_null (Some x # xs) = x # filter_non_null xs"

text \<open>The value of \<^verbatim>\<open>topics\<close> for the lines of the text: mapped, then filtered.\<close>

definition parse_lines :: "jsstring list \<Rightarrow> js_error + trending_topic list" where
  "parse_lines lines =
     and_then (map_throwing parse_line lines) (\<lambda>items. Inr (filter_non_null items))"

text \<open>A line matches the pattern when \<^verbatim>\<open>line.match\<close> does not return \<^verbatim>\<open>null\<close>.\<close>

definition matches_pattern :: "jsstring \<Rightarrow> bool" where
  "matches_pattern line \<longleftrightarrow> regex_exec topic_re line \<noteq> None"

section \<open>The model gateway and the service operations\<close>

text \<open>
  The requests the service sends. Each constructor stands for the request object written
  out in the source (model name, prompt text, response schema, tools) and carries the
  values the source interpolates into it.
\<close>

datatype request =
    ImageRequest jsstring jsstring
  | VoiceRequest jsstring jsstring
  | ArticleRequest jsstring
  | TemplateRequest jsstring
  | TrendingRequest
  | AssistantRequest jsstring

text \<open>
  The gateway (\<^verbatim>\<open>ai.models.generateContent\<close>, \<^verbatim>\<open>chat.sendMessage\<close>) is outside the
  program: it is a parameter, a function from the request to the rejection of the promise
  (\<open>Inl\<close>) or to the \<^verbatim>\<open>text\<close> of the response, which may be \<^verbatim>\<open>undefined\<close>.
\<close>

type_synonym gateway = "request \<Rightarrow> js_error + jsstring option"

datatype 'n json =
    JNull
  | JBool bool
  | JNum 'n
  | JStr jsstring
  | JArr "'n json list"
  | JObj "(string \<times> 'n json) list"

definition getChatbotResponse :: "(jsstring \<Rightarrow> js_error + jsstring option) \<Rightarrow> jsstring \<Rightarrow> js_error + jsstring option" where
  "getChatbotResponse sendMessage message =
     try_catch
       (and_then (sendMessage message) (\<lambda>response_text. Inr response_text))
       (\<lambda>error. Inr (Some (str ''Sorry, I'' @ [39] @ str ''m having trouble connecting. Please try again later.'')))"

definition analyzeImageForAI ::
  "gateway \<Rightarrow> (jsstring \<Rightarrow> js_error + 'n json) \<Rightarrow> jsstring \<Rightarrow> jsstring \<Rightarrow> js_error + ('n::zero) json" where
  "analyzeImageForAI generateContent parse base64Image mimeType =
     try_catch
       (and_then (generateContent (ImageRequest mimeType base64Image)) (\<lambda>response_text.
          cleanAndParseJson parse response_text))
       (\<lambda>error. Inr (JObj
          [(''classification'', JStr (str ''Uncertain'')),
           (''confidence'', JNum 0),
           (''explanation'', JStr (str ''An error occurred during analysis.''))]))"

definition analyzeVoiceForAI ::
  "gateway \<Rightarrow> (jsstring \<Rightarrow> js_error + 'n json) \<Rightarrow> jsstring \<Rightarrow> jsstring \<Rightarrow> js_error + ('n::zero) json" where
  "analyzeVoiceForAI generateContent parse base64Audio mimeType =
     try_catch
       (and_then (generateContent (VoiceRequest mimeType base64Audio)) (\<lambda>response_text.
          cleanAndParseJson parse response_text))
       (\<lambda>error. Inr (JObj
          [(''classification'', JStr (str ''Uncertain'')),
           (''confidence'', JNum 0),
           (''explanation'', JStr (str ''An error occurred during voice analysis.''))]))"

definition analyzeArticleContent ::
  "gateway \<Rightarrow> (jsstring \<Rightarrow> js_error + 'n json) \<Rightarrow> jsstring \<Rightarrow> js_error + ('n::zero) json" where
  "analyzeArticleContent generateContent parse content =
     try_catch
       (and_then (generateContent (ArticleRequest content)) (\<lambda>response_text.
          cleanAndParseJson parse response_text))
       (\<lambda>error. Inr (JObj
          [(''riskLevel'', JStr (str ''High'')),
           (''credibilityScore'', JNum 0),
           (''tags'', JArr []),
           (''summary'', JStr (str ''Error during analysis.'')),
           (''claims'', JArr [])]))"

definition generateAwarenessTemplateText ::
  "gateway \<Rightarrow> (jsstring \<Rightarrow> js_error + 'n json) \<Rightarrow> jsstring \<Rightarrow> js_error + 'n json" where
  "generateAwarenessTemplateText generateContent parse prompt =
     try_catch
       (and_then (generateContent (TemplateRequest prompt)) (\<lambda>response_text.
          cleanAndParseJson parse response_text))
       (\<lambda>error. Inr (JObj
          [(''title'', JStr (str ''Error'')),
           (''highlights'', JArr [JStr (str ''Could not generate content.'')]),
           (''tips'', JArr [])]))"

text \<open>
  In \<open>getTrendingTopics\<close>, \<^verbatim>\<open>text.split\<close> on an \<^verbatim>\<open>undefined\<close> text throws a TypeError;
  \<^verbatim>\<open>topics.slice(0, 5)\<close> is \<open>take 5\<close>; \<^verbatim>\<open>if (text)\<close> holds for a non-empty string.
\<close>

definition getTrendingTopics :: "gateway \<Rightarrow> js_error + trending_topic list" where
  "getTrendingTopics generateContent =
     try_catch
       (and_then (generateContent TrendingRequest) (\<lambda>response_text.
          case response_text of
            None \<Rightarrow> Inl TypeError
          | Some text \<Rightarrow>
              and_then (parse_lines (split_lines text)) (\<lambda>topics.
                if length topics > 0 then Inr (take 5 topics)
                else if \<not> falsy (Some text)
                then Inr [\<lparr>topic = str ''Could not parse trending topics.'', risk = str ''Medium'', score = Num 50\<rparr>]
                else Inr [])))
       (\<lambda>error. Inr [\<lparr>topic = str ''Error fetching topics.'', risk = str ''High'', score = Num 0\<rparr>])"

definition getVoiceAssistantResponse :: "gateway \<Rightarrow> jsstring \<Rightarrow> js_error + jsstring option" where
  "getVoiceAssistantResponse generateContent text =
     try_catch
       (and_then (generateContent (AssistantRequest text)) (\<lambda>response_text. Inr response_text))
       (\<lambda>error. Inr (Some (str ''Sorry, I couldn'' @ [39] @ str ''t process that. Please try again.'')))"

section \<open>Loading the service module\<close>

text \<open>
  The statements at the top level of the service module, run once when it is loaded. The
  environment maps a variable name to its value, \<open>None\<close> when it is not set. The result
  is the outcome and the objects constructed, in order: the client with the key it is
  given, then the chat session. The constructors are the library's and are taken not to throw.
\<close>

datatype constructed = GoogleGenAI "jsstring option" | Chat

definition load_service :: "(string \<Rightarrow> jsstring option) \<Rightarrow> (js_error + unit) \<times> constructed list" where
  "load_service env =
     (let API_KEY = env ''API_KEY''
      in if falsy API_KEY
         then (Inl (Error (str ''API_KEY environment variable not set'')), [])
         else (Inr (), [GoogleGenAI API_KEY, Chat]))"

section \<open>The awareness-template page\<close>

record 'v page =
  prompt :: jsstring
  isLoading :: bool
  result :: "'v option"
  error :: "jsstring option"
  isCopied :: bool

text \<open>
  \<open>handleGenerate\<close> takes the service function it calls and the state of the page; it
  returns the state after its last update and the list of the arguments with which it
  called the service function.
\<close>

definition handleGenerate :: "(jsstring \<Rightarrow> js_error + 'v) \<Rightarrow> 'v page \<Rightarrow> 'v page \<times> jsstring list" where
  "handleGenerate generate st =
     (if falsy (Some (trim (prompt st)))
      then (st\<lparr>error := Some (str ''Prompt cannot be empty.'')\<rparr>, [])
      else
        (let st1 = st\<lparr>isLoading := True, result := None, error := None\<rparr>;
             st2 = (case generate (prompt st) of
                      Inr generatedContent \<Rightarrow> st1\<lparr>result := Some generatedContent\<rparr>
                    | Inl err \<Rightarrow> st1\<lparr>error := Some (str ''Failed to generate the template. Please try again.'')\<rparr>)
         in (st2\<lparr>isLoading := False\<rparr>, [prompt st])))"

section \<open>Test doubles and notions used in the properties\<close>

text \<open>A gateway that answers every request with the same text, and one that rejects every request.\<close>

definition answering :: "jsstring \<Rightarrow> gateway" where
  "answering text = (\<lambda>request. Inr (Some text))"

definition rejecting :: "js_error \<Rightarrow> gateway" where
  "rejecting e = (\<lambda>request. Inl e)"

text \<open>A parser that accepts one text only, and gives the value \<open>v\<close> for it.\<close>

definition parse_only :: "jsstring \<Rightarrow> 'v \<Rightarrow> jsstring \<Rightarrow> js_error + 'v" where
  "parse_only accepted v t = (if t = accepted then Inr v else Inl SyntaxError)"

definition sample_parser :: "jsstring \<Rightarrow> js_error + int json" where
  "sample_parser = parse_only (str ''{}'') (JObj [])"

text \<open>Sample lines and response texts.\<close>

definition vaccine_line :: jsstring where
  "vaccine_line = str ''1. Fake vaccine claim - Risk: High - Credibility: 12''"

text \<open>A line whose title stands between double quotes (code unit 34).\<close>

definition flat_earth_line :: jsstring where
  "flat_earth_line = str ''2. '' @ [34] @ str ''Flat earth'' @ [34] @ str '' - Risk: Low - Credibility: 80''"

definition seven_lines :: "jsstring list" where
  "seven_lines =
     [str ''Top topics:'',
      [],
      str ''1. Moon hoax - Risk: High - Credibility: 12'',
      str ''note'',
      flat_earth_line,
      str ''---'',
      str ''Risk: none'']"

definition six_matching_text :: jsstring where
  "six_matching_text =
     str ''A - Risk: High - Credibility: 40'' @ [10] @
     str ''B - Risk: Low - Credibility: 90'' @ [10] @
     str ''C - Risk: Medium - Credibility: 10'' @ [10] @
     str ''D - Risk: High - Credibility: 70'' @ [10] @
     str ''E - Risk: Low - Credibility: 20'' @ [10] @
     str ''F - Risk: Medium - Credibility: 60''"

text \<open>
  Lines whose score is \<open>2 ^ 53 + 1\<close>, which is not a double, and \<open>10 ^ 309\<close>, which is
  above every finite double; and a response text of three lines.
\<close>

definition rounded_score_line :: jsstring where
  "rounded_score_line = str ''R - Risk: Low - Credibility: 9007199254740993''"

definition huge_score_line :: jsstring where
  "huge_score_line = str ''Z - Risk: Low - Credibility: 1000000000000000000000000000000000000000000000000000000000000000000000000000000000000000000000000000000000000000000000000000000000000000000000000000000000000000000000000000000000000000000000000000000000000000000000000000000000000000000000000000000000000000000000000000000000000000000000000000000000000000000000''"

definition scores_text :: jsstring where
  "scores_text = vaccine_line @ [10] @ rounded_score_line @ [10] @ huge_score_line"

text \<open>The model call for a request fails, or the parsing of its response does.\<close>

definition call_fails :: "gateway \<Rightarrow> (jsstring \<Rightarrow> js_error + 'v) \<Rightarrow> request \<Rightarrow> bool" where
  "call_fails generateContent parse request \<longleftrightarrow>
     (case generateContent request of
        Inl e \<Rightarrow> True
      | Inr response_text \<Rightarrow> isl (cleanAndParseJson parse response_text))"

text \<open>
  The words a pattern can consume, without regard to order of preference, and the groups
  that every match of a pattern sets.
\<close>

inductive lang :: "regex \<Rightarrow> jsstring \<Rightarrow> bool" where
  lang_Empty: "lang Empty []"
| lang_Atom: "atom_matches a c \<Longrightarrow> lang (Atom a) [c]"
| lang_Seq: "lang r1 u \<Longrightarrow> lang r2 v \<Longrightarrow> lang (Seq r1 r2) (u @ v)"
| lang_Opt_skip: "lang (Opt r) []"
| lang_Opt_take: "lang r u \<Longrightarrow> lang (Opt r) u"
| lang_Star_stop: "lang (Star r) []"
| lang_Star_step: "lang r u \<Longrightarrow> lang (Star r) v \<Longrightarrow> lang (Star r) (u @ v)"
| lang_LazyStar_stop: "lang (LazyStar r) []"
| lang_LazyStar_step: "lang r u \<Longrightarrow> lang (LazyStar r) v \<Longrightarrow> lang (LazyStar r) (u @ v)"
| lang_Group: "lang r u \<Longrightarrow> lang (Group n r) u"

fun must_groups :: "regex \<Rightarrow> nat set" where
  "must_groups (Seq r1 r2) = must_groups r1 \<union> must_groups r2"
| "must_groups (Group n r) = insert n (must_groups r)"
| "must_groups _ = {}"

fun groups_ok :: "(nat \<Rightarrow> jsstring \<Rightarrow> bool) \<Rightarrow> regex \<Rightarrow> bool" where
  "groups_ok good (Seq r1 r2) \<longleftrightarrow> groups_ok good r1 \<and> groups_ok good r2"
| "groups_ok good (Opt r) \<longleftrightarrow> groups_ok good r"
| "groups_ok good (Star r) \<longleftrightarrow> groups_ok good r"
| "groups_ok good (LazyStar r) \<longleftrightarrow> groups_ok good r"
| "groups_ok good (Group n r) \<longleftrightarrow> (\<forall>u. lang r u \<longrightarrow> good n u) \<and> groups_ok good r"
| "groups_ok good _ \<longleftrightarrow> True"

definition caps_ok :: "(nat \<Rightarrow> jsstring \<Rightarrow> bool) \<Rightarrow> captures \<Rightarrow> bool" where
  "caps_ok good caps \<longleftrightarrow> (\<forall>n u. caps n = Some u \<longrightarrow> good n u)"

definition reached :: "regex \<Rightarrow> jsstring \<Rightarrow> captures \<Rightarrow> (nat \<Rightarrow> jsstring \<Rightarrow> bool) \<Rightarrow> jsstring \<Rightarrow> captures \<Rightarrow> bool" where
  "reached r s caps good s' caps' \<longleftrightarrow>
     (\<exists>u. s = u @ s' \<and> lang r u) \<and> caps_ok good caps' \<and>
     (\<forall>n \<in> must_groups r. caps' n \<noteq> None) \<and> (\<forall>n. caps n \<noteq> None \<longrightarrow> caps' n \<noteq> None)"

text \<open>What the third group of the pattern can hold.\<close>

definition digits_in_3 :: "nat \<Rightarrow> jsstring \<Rightarrow> bool" where
  "digits_in_3 n u \<longleftrightarrow> (n = 3 \<longrightarrow> u \<noteq> [] \<and> (\<forall>c \<in> set u. is_digit c))"

inductive_cases lang_SeqE: "lang (Seq r1 r2) w"
inductive_cases lang_AtomE: "lang (Atom a) w"

declare bit_length.simps [simp del]
declare m.simps [simp del]
declare regex_exec.simps [simp del]
declare split_lines.simps [simp del]

section \<open>Properties\<close>

lemma startsWith_iff: "startsWith s p \<longleftrightarrow> (\<exists>r. s = p @ r)"
  unfolding startsWith_def by (metis append_eq_conv_conj append_take_drop_id)

lemma startsWith_appendD: "startsWith s (p @ q) \<Longrightarrow> startsWith s p"
  by (auto simp: startsWith_iff)

lemma trim_no_space_ends:
  assumes "s \<noteq> []" "\<not> is_space (hd s)" "\<not> is_space (last s)"
  shows "trim s = s"
proof -
  from assms(1,2) have a: "dropWhile is_space s = s"
    by (cases s) simp_all
  from assms(1,3) have "dropWhile is_space (rev s) = rev s"
    by (cases "rev s") (simp_all add: last_rev [symmetric] hd_rev)
  with a show ?thesis by (simp add: trim_def)
qed

lemma trim_fenced: "trim (str ''```json'' @ s @ str ''```'') = str ''```json'' @ s @ str ''```''"
  by (rule trim_no_space_ends) (simp_all add: str_def is_space_def)

lemma substring_fenced:
  "substring (str ''```json'' @ s @ str ''```'') 7 (int (length (str ''```json'' @ s @ str ''```'')) - 3) = s"
  by (simp add: substring_def str_def Let_def)

text \<open>
  C1. A text \<open>s\<close> wrapped in a fence tagged json is parsed to the same value as \<open>s\<close>
  itself, for every parser, whenever \<open>s\<close> does not itself begin (after leading white
  space) with a fence marker. Every JSON text meets the condition: the first character
  after white space of a JSON text is one of \<^verbatim>\<open>{ [ " - 0..9 t f n\<close>, never a backquote.
\<close>

theorem fenced_json_same_value:
  assumes "\<not> startsWith (trim s) (str ''```'')"
  shows "cleanAndParseJson parse (Some (str ''```json'' @ s @ str ''```'')) = cleanAndParseJson parse (Some s)"
proof -
  have nj: "\<not> startsWith (trim s) (str ''```json'')"
  proof
    assume "startsWith (trim s) (str ''```json'')"
    then have "startsWith (trim s) (str ''```'' @ str ''json'')"
      by (simp add: str_def)
    then have "startsWith (trim s) (str ''```'')"
      by (rule startsWith_appendD)
    with assms show False by simp
  qed
  have w: "startsWith (str ''```json'' @ s @ str ''```'') (str ''```json'')"
    by (simp add: startsWith_def str_def)
  have "cleanAndParseJson parse (Some (str ''```json'' @ s @ str ''```'')) = parse (trim s)"
    unfolding cleanAndParseJson_def Let_def option.case trim_fenced substring_fenced using w by simp
  moreover have "cleanAndParseJson parse (Some s) = parse (trim s)"
    unfolding cleanAndParseJson_def Let_def option.case using assms nj by simp
  ultimately show ?thesis by simp
qed

theorem fenced_json_same_value_witness:
  "\<not> startsWith (trim (10 # str ''{}'' @ [10])) (str ''```'') \<and>
   cleanAndParseJson sample_parser (Some (str ''```json'' @ (10 # str ''{}'' @ [10]) @ str ''```'')) =
     cleanAndParseJson sample_parser (Some (10 # str ''{}'' @ [10])) \<and>
   cleanAndParseJson sample_parser (Some (10 # str ''{}'' @ [10])) = Inr (JObj [])"
proof -
  have h: "\<not> startsWith (trim (10 # str ''{}'' @ [10])) (str ''```'')"
    by (simp add: startsWith_def trim_def str_def is_space_def)
  have "cleanAndParseJson sample_parser (Some (10 # str ''{}'' @ [10])) = Inr (JObj [])"
    by (simp add: cleanAndParseJson_def startsWith_def trim_def str_def is_space_def
        sample_parser_def parse_only_def)
  with h fenced_json_same_value [OF h, of sample_parser] show ?thesis by simp
qed

subsection \<open>The matcher consumes a word of the pattern and sets its groups\<close>

lemma reached_here:
  "lang r [] \<Longrightarrow> must_groups r = {} \<Longrightarrow> caps_ok good caps \<Longrightarrow> reached r s caps good s caps"
  by (simp add: reached_def)

lemma reached_Atom:
  "atom_matches a c \<Longrightarrow> caps_ok good caps \<Longrightarrow> reached (Atom a) (c # s) caps good s caps"
  unfolding reached_def using lang_Atom [of a c] by auto

lemma reached_Seq:
  assumes "reached r1 s caps good s1 c1" "reached r2 s1 c1 good s2 c2"
  shows "reached (Seq r1 r2) s caps good s2 c2"
proof -
  from assms obtain u v where "s = u @ s1" "lang r1 u" "s1 = v @ s2" "lang r2 v"
    unfolding reached_def by blast
  then have "s = (u @ v) @ s2" "lang (Seq r1 r2) (u @ v)"
    by (simp_all add: lang_Seq)
  then have "\<exists>w. s = w @ s2 \<and> lang (Seq r1 r2) w" by blast
  with assms show ?thesis
    unfolding reached_def by auto
qed

lemma reached_Opt:
  assumes "reached r s caps good s' caps'"
  shows "reached (Opt r) s caps good s' caps'"
  using assms unfolding reached_def by (auto intro: lang_Opt_take)

lemma reached_Star:
  assumes "reached r s caps good s1 c1" "reached (Star r) s1 c1 good s2 c2"
  shows "reached (Star r) s caps good s2 c2"
proof -
  from assms obtain u v where "s = u @ s1" "lang r u" "s1 = v @ s2" "lang (Star r) v"
    unfolding reached_def by blast
  then have "s = (u @ v) @ s2" "lang (Star r) (u @ v)"
    by (simp_all add: lang_Star_step)
  then have "\<exists>w. s = w @ s2 \<and> lang (Star r) w" by blast
  with assms show ?thesis
    unfolding reached_def by auto
qed

lemma reached_LazyStar:
  assumes "reached r s caps good s1 c1" "reached (LazyStar r) s1 c1 good s2 c2"
  shows "reached (LazyStar r) s caps good s2 c2"
proof -
  from assms obtain u v where "s = u @ s1" "lang r u" "s1 = v @ s2" "lang (LazyStar r) v"
    unfolding reached_def by blast
  then have "s = (u @ v) @ s2" "lang (LazyStar r) (u @ v)"
    by (simp_all add: lang_LazyStar_step)
  then have "\<exists>w. s = w @ s2 \<and> lang (LazyStar r) w" by blast
  with assms show ?thesis
    unfolding reached_def by auto
qed

lemma reached_Group:
  assumes "reached r s caps good s' caps'" "\<forall>u. lang r u \<longrightarrow> good n u"
  shows "reached (Group n r) s caps good s' (caps'(n := Some (take (length s - length s') s)))"
proof -
  from assms(1) obtain u where u: "s = u @ s'" "lang r u"
    unfolding reached_def by blast
  then have t: "take (length s - length s') s = u" by simp
  from u assms(2) have "good n u" by simp
  with assms(1) u show ?thesis
    unfolding reached_def t caps_ok_def by (auto intro: lang_Group)
qed

lemma reached_caps_ok: "reached r s caps good s' caps' \<Longrightarrow> caps_ok good caps'"
  by (simp add: reached_def)

lemma m_sound:
  assumes "m r s caps k = Some res" "groups_ok good r" "caps_ok good caps"
  shows "\<exists>s' caps'. k s' caps' = Some res \<and> reached r s caps good s' caps'"
  using assms
proof (induction r s caps k rule: m.induct)
  case (1 s caps k)
  then have "k s caps = Some res" by (simp add: m.simps)
  moreover from 1 have "reached Empty s caps good s caps"
    by (intro reached_here lang_Empty) simp_all
  ultimately show ?case by blast
next
  case (2 a s caps k)
  from 2(1) obtain c s' where s: "s = c # s'" "atom_matches a c" "k s' caps = Some res"
    by (cases s) (auto simp: m.simps split: if_splits)
  with 2 have "reached (Atom a) s caps good s' caps"
    by (simp add: reached_Atom)
  with s show ?case by blast
next
  case (3 r1 r2 s caps k)
  from 3 have "m r1 s caps (\<lambda>s' caps'. m r2 s' caps' k) = Some res" "groups_ok good r1" "groups_ok good r2"
    by (simp_all add: m.simps)
  from 3(2)[OF this(1,2) 3(5)] obtain s1 c1 where
    a: "m r2 s1 c1 k = Some res" "reached r1 s caps good s1 c1" by blast
  then have "caps_ok good c1" by (simp add: reached_def)
  from 3(1)[OF a(1) \<open>groups_ok good r2\<close> this] obtain s2 c2 where
    b: "k s2 c2 = Some res" "reached r2 s1 c1 good s2 c2" by blast
  from a(2) b(2) have "reached (Seq r1 r2) s caps good s2 c2"
    by (rule reached_Seq)
  with b(1) show ?case by blast
next
  case (4 r s caps k)
  let ?k = "\<lambda>s' caps'. if length s' < length s then k s' caps' else None"
  from 4(3) have g: "groups_ok good r" by simp
  show ?case
  proof (cases "m r s caps ?k")
    case None
    with 4(2) have "k s caps = Some res" by (simp add: m.simps)
    moreover from 4(4) have "reached (Opt r) s caps good s caps"
      by (intro reached_here lang_Opt_skip) simp_all
    ultimately show ?thesis by blast
  next
    case (Some x)
    with 4(2) have "m r s caps ?k = Some res" by (simp add: m.simps)
    from 4(1)[OF this g 4(4)] obtain s1 c1 where
      a: "?k s1 c1 = Some res" "reached r s caps good s1 c1" by blast
    then have "k s1 c1 = Some res" by (simp split: if_splits)
    with a(2) show ?thesis by (blast intro: reached_Opt)
  qed
next
  case (5 r s caps k)
  let ?k = "\<lambda>s' caps'. if length s' < length s then m (Star r) s' caps' k else None"
  from 5(4) have g: "groups_ok good r" by simp
  show ?case
  proof (cases "m r s caps ?k")
    case None
    with 5(3) have "k s caps = Some res" by (simp add: m.simps)
    moreover from 5(5) have "reached (Star r) s caps good s caps"
      by (intro reached_here lang_Star_stop) simp_all
    ultimately show ?thesis by blast
  next
    case (Some x)
    with 5(3) have "m r s caps ?k = Some res" by (simp add: m.simps)
    from 5(2)[OF this g 5(5)] obtain s1 c1 where
      a: "?k s1 c1 = Some res" "reached r s caps good s1 c1" by blast
    then have l: "length s1 < length s" and b: "m (Star r) s1 c1 k = Some res"
      by (simp_all split: if_splits)
    from 5(1)[OF l b 5(4) reached_caps_ok[OF a(2)]] obtain s2 c2 where
      c: "k s2 c2 = Some res" "reached (Star r) s1 c1 good s2 c2" by blast
    from a(2) c(2) have "reached (Star r) s caps good s2 c2" by (rule reached_Star)
    with c(1) show ?thesis by blast
  qed
next
  case (6 r s caps k)
  let ?k = "\<lambda>s' caps'. if length s' < length s then m (LazyStar r) s' caps' k else None"
  from 6(4) have g: "groups_ok good r" by simp
  show ?case
  proof (cases "k s caps")
    case (Some x)
    with 6(3) have "k s caps = Some res" by (simp add: m.simps)
    moreover from 6(5) have "reached (LazyStar r) s caps good s caps"
      by (intro reached_here lang_LazyStar_stop) simp_all
    ultimately show ?thesis by blast
  next
    case None
    with 6(3) have "m r s caps ?k = Some res" by (simp add: m.simps)
    from 6(2)[OF None this g 6(5)] obtain s1 c1 where
      a: "?k s1 c1 = Some res" "reached r s caps good s1 c1" by blast
    then have l: "length s1 < length s" and b: "m (LazyStar r) s1 c1 k = Some res"
      by (simp_all split: if_splits)
    from 6(1)[OF None l b 6(4) reached_caps_ok[OF a(2)]] obtain s2 c2 where
      c: "k s2 c2 = Some res" "reached (LazyStar r) s1 c1 good s2 c2" by blast
    from a(2) c(2) have "reached (LazyStar r) s caps good s2 c2" by (rule reached_LazyStar)
    with c(1) show ?thesis by blast
  qed
next
  case (7 n r s caps k)
  let ?k = "\<lambda>s' caps'. k s' (caps'(n := Some (take (length s - length s') s)))"
  from 7(3) have g: "groups_ok good r" and h: "\<forall>u. lang r u \<longrightarrow> good n u" by simp_all
  from 7(2) have "m r s caps ?k = Some res" by (simp add: m.simps)
  from 7(1)[OF this g 7(4)] obtain s1 c1 where
    a: "?k s1 c1 = Some res" "reached r s caps good s1 c1" by blast
  from reached_Group[OF a(2) h] a(1) show ?case by blast
qed

subsection \<open>What a line gives\<close>

lemma lang_Star_Atom:
  assumes "lang r u" "r = Star (Atom a)"
  shows "\<forall>c \<in> set u. atom_matches a c"
  using assms by (induction rule: lang.induct) (auto elim: lang_AtomE)

lemma lang_Plus_Digit:
  assumes "lang (Plus (Atom Digit)) u"
  shows "u \<noteq> [] \<and> (\<forall>c \<in> set u. is_digit c)"
proof -
  from assms obtain v w where "u = v @ w" "lang (Atom Digit) v" "lang (Star (Atom Digit)) w"
    unfolding Plus_def by (auto elim: lang_SeqE)
  moreover from this(2) obtain c where "v = [c]" "is_digit c"
    by (auto elim: lang_AtomE)
  moreover from calculation(3) have "\<forall>c \<in> set w. is_digit c"
    using lang_Star_Atom [of "Star (Atom Digit)" w Digit] by simp
  ultimately show ?thesis by auto
qed

lemma regex_exec_start:
  "regex_exec r s = Some res \<Longrightarrow> \<exists>t. m r t no_captures (\<lambda>_ caps. Some caps) = Some res"
proof (induction s)
  case Nil
  then show ?case
    by (subst (asm) regex_exec.simps) (auto split: option.splits)
next
  case (Cons c s)
  from Cons.prems show ?case
    by (subst (asm) regex_exec.simps) (auto split: option.splits dest: Cons.IH)
qed

lemma groups_ok_Plus: "groups_ok good (Plus r) \<longleftrightarrow> groups_ok good r"
  by (simp add: Plus_def)

lemma must_groups_Plus: "must_groups (Plus r) = must_groups r"
  by (simp add: Plus_def)

lemma topic_re_groups_ok: "groups_ok digits_in_3 topic_re"
  by (simp add: topic_re_def seq_def lits_def digits_in_3_def lang_Plus_Digit groups_ok_Plus)

lemma topic_re_must: "must_groups topic_re = {1, 2, 3}"
  by (simp add: topic_re_def seq_def lits_def must_groups_Plus insert_commute)

lemma topic_match_groups:
  assumes "regex_exec topic_re line = Some match"
  shows "\<exists>g1 g2 g3. match 1 = Some g1 \<and> match 2 = Some g2 \<and> match 3 = Some g3 \<and>
           g3 \<noteq> [] \<and> (\<forall>c \<in> set g3. is_digit c)"
proof -
  from regex_exec_start [OF assms] obtain t where
    tm: "m topic_re t no_captures (\<lambda>_ caps. Some caps) = Some match" ..
  have c0: "caps_ok digits_in_3 no_captures"
    by (simp add: caps_ok_def no_captures_def)
  from m_sound [OF tm topic_re_groups_ok c0] obtain s' caps' where
    "Some caps' = Some match" "reached topic_re t no_captures digits_in_3 s' caps'"
    by blast
  then have r: "reached topic_re t no_captures digits_in_3 s' match" by simp
  then have "match 1 \<noteq> None" "match 2 \<noteq> None" "match 3 \<noteq> None"
    by (simp_all add: reached_def topic_re_must)
  then obtain g1 g2 g3 where g: "match 1 = Some g1" "match 2 = Some g2" "match 3 = Some g3"
    by auto
  from r g(3) have "digits_in_3 3 g3"
    by (simp add: reached_def caps_ok_def)
  with g show ?thesis by (simp add: digits_in_3_def)
qed

lemma to_double_exact: "n < 9007199254740992 \<Longrightarrow> to_double n = Num (int n)"
  by (simp add: to_double_def)

lemma to_double_cases: "to_double n = Infinity \<or> (\<exists>v. 0 \<le> v \<and> to_double n = Num v)"
  by (simp add: to_double_def Let_def)

lemma bit_length_upper: "n < 2 ^ bit_length n"
proof (induction n rule: bit_length.induct)
  case (1 n)
  show ?case
  proof (cases "n = 0")
    case True
    then show ?thesis by (simp add: bit_length.simps)
  next
    case False
    with 1 have "n div 2 < 2 ^ bit_length (n div 2)" by simp
    then have "n < 2 * 2 ^ bit_length (n div 2)" by linarith
    with False show ?thesis by (subst bit_length.simps) simp
  qed
qed

lemma bit_length_lower: "n \<noteq> 0 \<Longrightarrow> 2 ^ (bit_length n - 1) \<le> n"
proof (induction n rule: bit_length.induct)
  case (1 n)
  show ?case
  proof (cases "n div 2 = 0")
    case True
    with 1(2) have "n = 1" by linarith
    then show ?thesis by (simp add: bit_length.simps)
  next
    case False
    with 1 have "2 ^ (bit_length (n div 2) - 1) \<le> n div 2" by simp
    then have "2 * 2 ^ (bit_length (n div 2) - 1) \<le> n" by linarith
    moreover from False have "bit_length (n div 2) \<noteq> 0"
      by (subst bit_length.simps) simp
    then have "2 * (2::nat) ^ (bit_length (n div 2) - 1) = 2 ^ bit_length (n div 2)"
      by (cases "bit_length (n div 2)") simp_all
    ultimately show ?thesis
      using 1(2) by (subst bit_length.simps) simp
  qed
qed

lemma to_double_overflow:
  assumes "2 ^ 1024 \<le> n"
  shows "to_double n = Infinity"
proof -
  define e where "e = bit_length n - 53"
  define q where "q = n div 2 ^ e"
  define q' where "q' = (if 2 ^ (e - 1) < n mod 2 ^ e \<or> (n mod 2 ^ e = 2 ^ (e - 1) \<and> odd q) then q + 1 else q)"
  have p: "(0::nat) < 2 ^ 1024" by (rule zero_less_power) simp
  with assms have n0: "n \<noteq> 0" by linarith
  have "(2::nat) ^ 1024 < 2 ^ bit_length n"
    using assms bit_length_upper [of n] by (rule le_less_trans)
  then have b: "1024 < bit_length n"
    by (rule power_less_imp_less_exp [rotated]) simp
  then have e: "bit_length n - 1 = 52 + e" "1024 \<le> 52 + e" by (simp_all add: e_def)
  from bit_length_lower [OF n0] have "2 ^ 52 * 2 ^ e \<le> n"
    by (simp only: e(1) power_add)
  then have "2 ^ 52 \<le> q"
    unfolding q_def by (simp add: less_eq_div_iff_mult_less_eq)
  moreover have "q \<le> q'" by (simp add: q'_def)
  ultimately have "2 ^ 52 \<le> q'" by (rule order_trans)
  then have "2 ^ 52 * 2 ^ e \<le> q' * 2 ^ e"
    by (rule mult_le_mono1)
  then have "2 ^ (52 + e) \<le> q' * 2 ^ e"
    by (simp only: power_add)
  moreover have "(2::nat) ^ 1024 \<le> 2 ^ (52 + e)"
    using e(2) by (rule power_increasing) simp
  ultimately have v: "2 ^ 1024 \<le> q' * 2 ^ e"
    by (rule order_trans [rotated])
  have "(2::nat) ^ 53 \<le> 2 ^ 1024" by (rule power_increasing) simp_all
  from this assms have "2 ^ 53 \<le> n" by (rule order_trans)
  then have "\<not> n < 2 ^ 53" by (rule leD)
  with v show ?thesis
    unfolding to_double_def Let_def e_def [symmetric] q_def [symmetric] q'_def [symmetric]
    by (simp only: if_False if_True)
qed

text \<open>The rounding on three values whose doubles are known.\<close>

lemma to_double_tie: "to_double 9007199254740993 = Num 9007199254740992"
  by (simp add: to_double_def bit_length.simps Let_def)

lemma to_double_up: "to_double 9007199254740995 = Num 9007199254740996"
  by (simp add: to_double_def bit_length.simps Let_def)

lemma to_double_big: "to_double 123456789012345678901234567890 = Num 123456789012345677877719597056"
  by (simp add: to_double_def bit_length.simps Let_def)

lemma parseInt10_digits:
  assumes "g \<noteq> []" "\<forall>c \<in> set g. is_digit c"
  shows "parseInt10 g = to_double (digits_value g)"
proof -
  from assms obtain c rest where g: "g = c # rest" "is_digit c" by (cases g) auto
  then have "\<not> is_space c" "c \<noteq> 45" "c \<noteq> 43"
    by (auto simp: is_digit_def is_space_def)
  with g have d: "dropWhile is_space g = c # rest" by simp
  from assms(2) have "takeWhile is_digit g = g" by (simp add: takeWhile_eq_all_conv)
  with g have t: "takeWhile is_digit (c # rest) = c # rest" by simp
  show ?thesis
    unfolding parseInt10_def d Let_def list.case using \<open>c \<noteq> 45\<close> \<open>c \<noteq> 43\<close>
    by (simp only: if_False split t g(1)) simp
qed

lemma parse_line_None: "parse_line line = Inr None \<longleftrightarrow> \<not> matches_pattern line"
proof (cases "regex_exec topic_re line")
  case None
  then show ?thesis by (simp add: parse_line_def matches_pattern_def)
next
  case (Some match)
  from topic_match_groups [OF Some] obtain g1 g2 g3 where
    "match 1 = Some g1" "match 2 = Some g2" "match 3 = Some g3" by blast
  with Some show ?thesis
    by (simp add: parse_line_def matches_pattern_def group_def and_then_def to_string_def)
qed

lemma parse_line_Some:
  assumes "matches_pattern line"
  shows "\<exists>g1 g2 g3. g3 \<noteq> [] \<and> (\<forall>c \<in> set g3. is_digit c) \<and>
           parse_line line =
             Inr (Some \<lparr>topic = strip_quotes (trim g1), risk = trim g2, score = to_double (digits_value g3)\<rparr>)"
proof -
  from assms obtain match where m: "regex_exec topic_re line = Some match"
    by (auto simp: matches_pattern_def)
  from topic_match_groups [OF m] obtain g1 g2 g3 where
    g: "match 1 = Some g1" "match 2 = Some g2" "match 3 = Some g3"
       "g3 \<noteq> []" "\<forall>c \<in> set g3. is_digit c" by blast
  with m have "parse_line line =
      Inr (Some \<lparr>topic = strip_quotes (trim g1), risk = trim g2, score = to_double (digits_value g3)\<rparr>)"
    by (simp add: parse_line_def group_def and_then_def to_string_def parseInt10_digits)
  with g show ?thesis by blast
qed

lemma parse_line_total: "\<exists>item. parse_line line = Inr item"
  using parse_line_None [of line] parse_line_Some [of line] by (cases "matches_pattern line") auto

lemma parse_lines_Nil: "parse_lines [] = Inr []"
  by (simp add: parse_lines_def and_then_def)

lemma parse_lines_Cons:
  "parse_lines (l # ls) =
     (case parse_line l of
        Inl e \<Rightarrow> Inl e
      | Inr item \<Rightarrow>
          (case parse_lines ls of
             Inl e \<Rightarrow> Inl e
           | Inr recs \<Rightarrow> Inr (case item of None \<Rightarrow> recs | Some r \<Rightarrow> r # recs)))"
  by (auto simp: parse_lines_def and_then_def split: sum.splits option.splits)

lemma parse_lines_records:
  "\<exists>recs. parse_lines lines = Inr recs \<and>
     list_all2 (\<lambda>l r. parse_line l = Inr (Some r)) (filter matches_pattern lines) recs"
proof (induction lines)
  case Nil
  then show ?case by (simp add: parse_lines_Nil)
next
  case (Cons l ls)
  then obtain recs where r: "parse_lines ls = Inr recs"
    "list_all2 (\<lambda>l r. parse_line l = Inr (Some r)) (filter matches_pattern ls) recs" by blast
  show ?case
  proof (cases "matches_pattern l")
    case True
    from parse_line_Some [OF this] obtain x where "parse_line l = Inr (Some x)" by blast
    with r True show ?thesis by (simp add: parse_lines_Cons)
  next
    case False
    then have "parse_line l = Inr None" by (simp add: parse_line_None)
    with r False show ?thesis by (simp add: parse_lines_Cons)
  qed
qed

subsection \<open>Running the matcher on a given line\<close>

text \<open>
  The equations of the matcher for an input that is known to be empty or not; unlike the
  defining equations they do not rewrite below a continuation.
\<close>

lemma m_Nil:
  "m Empty [] caps k = k [] caps"
  "m (Atom a) [] caps k = None"
  "m (Seq r1 r2) [] caps k = m r1 [] caps (\<lambda>s' caps'. m r2 s' caps' k)"
  "m (Opt r) [] caps k =
     (case m r [] caps (\<lambda>s' caps'. None) of
        Some res \<Rightarrow> Some res
      | None \<Rightarrow> k [] caps)"
  "m (Star r) [] caps k =
     (case m r [] caps (\<lambda>s' caps'. None) of
        Some res \<Rightarrow> Some res
      | None \<Rightarrow> k [] caps)"
  "m (LazyStar r) [] caps k =
     (case k [] caps of
        Some res \<Rightarrow> Some res
      | None \<Rightarrow> m r [] caps (\<lambda>s' caps'. None))"
  "m (Group n r) [] caps k = m r [] caps (\<lambda>s' caps'. k s' (caps'(n := Some [])))"
  by (subst m.simps, simp cong: option.case_cong)+

lemma m_Cons:
  "m Empty (c # cs) caps k = k (c # cs) caps"
  "m (Atom a) (c # cs) caps k = (if atom_matches a c then k cs caps else None)"
  "m (Seq r1 r2) (c # cs) caps k = m r1 (c # cs) caps (\<lambda>s' caps'. m r2 s' caps' k)"
  "m (Opt r) (c # cs) caps k =
     (case m r (c # cs) caps (\<lambda>s' caps'. if length s' < length (c # cs) then k s' caps' else None) of
        Some res \<Rightarrow> Some res
      | None \<Rightarrow> k (c # cs) caps)"
  "m (Star r) (c # cs) caps k =
     (case m r (c # cs) caps (\<lambda>s' caps'. if length s' < length (c # cs) then m (Star r) s' caps' k else None) of
        Some res \<Rightarrow> Some res
      | None \<Rightarrow> k (c # cs) caps)"
  "m (LazyStar r) (c # cs) caps k =
     (case k (c # cs) caps of
        Some res \<Rightarrow> Some res
      | None \<Rightarrow> m r (c # cs) caps (\<lambda>s' caps'. if length s' < length (c # cs) then m (LazyStar r) s' caps' k else None))"
  "m (Group n r) (c # cs) caps k =
     m r (c # cs) caps (\<lambda>s' caps'. k s' (caps'(n := Some (take (length (c # cs) - length s') (c # cs)))))"
  by (subst m.simps, simp only: list.case)+

lemma regex_exec_Nil:
  "regex_exec r [] = m r [] no_captures (\<lambda>_ caps. Some caps)"
  by (subst regex_exec.simps) (simp split: option.splits)

lemma regex_exec_Cons:
  "regex_exec r (c # cs) =
     (case m r (c # cs) no_captures (\<lambda>_ caps. Some caps) of
        Some caps \<Rightarrow> Some caps
      | None \<Rightarrow> regex_exec r cs)"
  by (subst regex_exec.simps) (simp cong: option.case_cong)

lemmas line_eval =
  parse_line_def regex_exec_Nil regex_exec_Cons m_Nil m_Cons topic_re_def seq_def lits_def
  Plus_def no_captures_def str_def is_space_def is_digit_def is_line_terminator_def group_def
  and_then_def to_string_def trim_def strip_quotes_def parseInt10_def digits_value_def
  to_double_exact

lemma parse_line_samples:
  "parse_line (str ''Top topics:'') = Inr None"
  "parse_line (str ''note'') = Inr None"
  "parse_line (str ''---'') = Inr None"
  "parse_line (str ''Risk: none'') = Inr None"
  "parse_line (str ''No data.'') = Inr None"
  "parse_line (str ''1. Moon hoax - Risk: High - Credibility: 12'') =
     Inr (Some \<lparr>topic = str ''Moon hoax'', risk = str ''High'', score = Num 12\<rparr>)"
  "parse_line flat_earth_line =
     Inr (Some \<lparr>topic = str ''Flat earth'', risk = str ''Low'', score = Num 80\<rparr>)"
  "parse_line (str ''A - Risk: High - Credibility: 40'') =
     Inr (Some \<lparr>topic = str ''A'', risk = str ''High'', score = Num 40\<rparr>)"
  "parse_line (str ''B - Risk: Low - Credibility: 90'') =
     Inr (Some \<lparr>topic = str ''B'', risk = str ''Low'', score = Num 90\<rparr>)"
  "parse_line (str ''C - Risk: Medium - Credibility: 10'') =
     Inr (Some \<lparr>topic = str ''C'', risk = str ''Medium'', score = Num 10\<rparr>)"
  "parse_line (str ''D - Risk: High - Credibility: 70'') =
     Inr (Some \<lparr>topic = str ''D'', risk = str ''High'', score = Num 70\<rparr>)"
  "parse_line (str ''E - Risk: Low - Credibility: 20'') =
     Inr (Some \<lparr>topic = str ''E'', risk = str ''Low'', score = Num 20\<rparr>)"
  "parse_line (str ''F - Risk: Medium - Credibility: 60'') =
     Inr (Some \<lparr>topic = str ''F'', risk = str ''Medium'', score = Num 60\<rparr>)"
  "parse_line (str ''Hoax - Risk: Critical - Credibility: 250'') =
     Inr (Some \<lparr>topic = str ''Hoax'', risk = str ''Critical'', score = Num 250\<rparr>)"
  "parse_line vaccine_line =
     Inr (Some \<lparr>topic = str ''Fake vaccine claim'', risk = str ''High'', score = Num 12\<rparr>)"
  by (simp_all add: line_eval vaccine_line_def flat_earth_line_def)

lemma parse_line_rounded:
  "parse_line rounded_score_line =
     Inr (Some \<lparr>topic = str ''R'', risk = str ''Low'', score = Num 9007199254740992\<rparr>)"
  by (simp add: line_eval rounded_score_line_def to_double_tie)

lemma parse_line_huge:
  "parse_line huge_score_line =
     Inr (Some \<lparr>topic = str ''Z'', risk = str ''Low'', score = Infinity\<rparr>)"
  by (simp add: line_eval huge_score_line_def to_double_overflow)

lemma matches_pattern_eval: "matches_pattern l \<longleftrightarrow> parse_line l \<noteq> Inr None"
  by (simp add: parse_line_None)

subsection \<open>The trending-topics operation\<close>

lemma trim_idem: "trim (trim s) = trim s"
proof (cases "trim s = []")
  case True
  have "trim [] = []" by (simp add: trim_def)
  with True show ?thesis by simp
next
  case False
  define a where "a = dropWhile is_space s"
  define b where "b = dropWhile is_space (rev a)"
  have t: "trim s = rev b" by (simp add: trim_def a_def b_def)
  with False have bn: "b \<noteq> []" by simp
  then have hb: "\<not> is_space (hd b)"
    unfolding b_def by (rule hd_dropWhile)
  from bn have an: "a \<noteq> []" by (auto simp: b_def)
  then have ha: "\<not> is_space (hd a)"
    unfolding a_def by (rule hd_dropWhile)
  have "rev a = takeWhile is_space (rev a) @ b"
    by (simp add: b_def)
  then have "a = rev b @ rev (takeWhile is_space (rev a))"
    by (metis rev_append rev_rev_ident)
  with bn have "hd (rev b) = hd a"
    by (metis hd_append2 rev_is_Nil_conv)
  with ha have "\<not> is_space (hd (rev b))" by simp
  moreover from hb bn have "\<not> is_space (last (rev b))" by (simp add: last_rev)
  ultimately have "trim (rev b) = rev b"
    using bn by (intro trim_no_space_ends) simp_all
  with t show ?thesis by simp
qed

lemma parse_line_shape:
  assumes "parse_line l = Inr (Some r)"
  shows "trim (risk r) = risk r \<and>
    (\<exists>ds. ds \<noteq> [] \<and> (\<forall>c \<in> set ds. is_digit c) \<and> score r = to_double (digits_value ds)) \<and>
    (score r = Infinity \<or> (\<exists>n. 0 \<le> n \<and> score r = Num n))"
proof -
  from assms have "matches_pattern l"
    using parse_line_None [of l] by auto
  from parse_line_Some [OF this] assms obtain g1 g2 g3 where
    g: "g3 \<noteq> []" "\<forall>c \<in> set g3. is_digit c"
    "r = \<lparr>topic = strip_quotes (trim g1), risk = trim g2, score = to_double (digits_value g3)\<rparr>"
    by auto
  from g(3) have "trim (risk r) = risk r" by (simp add: trim_idem)
  moreover from g have "\<exists>ds. ds \<noteq> [] \<and> (\<forall>c \<in> set ds. is_digit c) \<and>
      score r = to_double (digits_value ds)"
    by auto
  moreover from g(3) to_double_cases [of "digits_value g3"]
  have "score r = Infinity \<or> (\<exists>n. 0 \<le> n \<and> score r = Num n)" by simp
  ultimately show ?thesis by blast
qed

lemma getTrendingTopics_answer:
  assumes "generateContent TrendingRequest = Inr (Some text)"
    "parse_lines (split_lines text) = Inr topics"
  shows "getTrendingTopics generateContent =
    Inr (if length topics > 0 then take 5 topics
         else if text \<noteq> []
         then [\<lparr>topic = str ''Could not parse trending topics.'', risk = str ''Medium'', score = Num 50\<rparr>]
         else [])"
  using assms by (simp add: getTrendingTopics_def try_catch_def and_then_def falsy_def)

lemma getTrendingTopics_rejected:
  assumes "generateContent TrendingRequest = Inl e"
  shows "getTrendingTopics generateContent =
    Inr [\<lparr>topic = str ''Error fetching topics.'', risk = str ''High'', score = Num 0\<rparr>]"
  using assms by (simp add: getTrendingTopics_def try_catch_def and_then_def)

text \<open>
  C5. When the model call succeeds and more than five lines of the response text match
  the pattern, \<open>getTrendingTopics\<close> returns five records: the records of the first five
  matching lines, each at the place of its line, so in the order of the model's output and
  not sorted by score.
\<close>

theorem first_five_matching_lines:
  assumes "generateContent TrendingRequest = Inr (Some text)"
    and "length (filter matches_pattern (split_lines text)) > 5"
  shows "\<exists>recs. getTrendingTopics generateContent = Inr recs \<and> length recs = 5 \<and>
           list_all2 (\<lambda>l r. parse_line l = Inr (Some r))
             (take 5 (filter matches_pattern (split_lines text))) recs"
proof -
  from parse_lines_records obtain topics where
    t: "parse_lines (split_lines text) = Inr topics"
       "list_all2 (\<lambda>l r. parse_line l = Inr (Some r)) (filter matches_pattern (split_lines text)) topics"
    by blast
  from t(2) assms(2) have l: "length topics > 5"
    by (simp add: list_all2_lengthD [symmetric])
  then have "topics \<noteq> []" by auto
  with getTrendingTopics_answer [of generateContent, OF assms(1) t(1)]
  have "getTrendingTopics generateContent = Inr (take 5 topics)" by simp
  moreover from l have "length (take 5 topics) = 5" by simp
  moreover from t(2) have "list_all2 (\<lambda>l r. parse_line l = Inr (Some r))
      (take 5 (filter matches_pattern (split_lines text))) (take 5 topics)"
    by (rule list_all2_takeI)
  ultimately show ?thesis by blast
qed

text \<open>
  C6. When the model call succeeds, the response text is not empty and no line of it
  matches the pattern, \<open>getTrendingTopics\<close> returns the one placeholder record; when the
  model call itself fails it returns the one error record.
\<close>

theorem placeholder_and_error_record:
  "(generateContent TrendingRequest = Inr (Some text) \<and> text \<noteq> [] \<and>
      filter matches_pattern (split_lines text) = [] \<longrightarrow>
    getTrendingTopics generateContent =
      Inr [\<lparr>topic = str ''Could not parse trending topics.'', risk = str ''Medium'', score = Num 50\<rparr>]) \<and>
   (generateContent TrendingRequest = Inl e \<longrightarrow>
    getTrendingTopics generateContent =
      Inr [\<lparr>topic = str ''Error fetching topics.'', risk = str ''High'', score = Num 0\<rparr>])"
proof (intro conjI impI)
  assume a: "generateContent TrendingRequest = Inr (Some text) \<and> text \<noteq> [] \<and>
      filter matches_pattern (split_lines text) = []"
  from parse_lines_records obtain topics where
    t: "parse_lines (split_lines text) = Inr topics"
       "list_all2 (\<lambda>l r. parse_line l = Inr (Some r)) (filter matches_pattern (split_lines text)) topics"
    by blast
  with a have "topics = []" by simp
  with getTrendingTopics_answer [of generateContent "text" topics] t(1) a
  show "getTrendingTopics generateContent =
      Inr [\<lparr>topic = str ''Could not parse trending topics.'', risk = str ''Medium'', score = Num 50\<rparr>]"
    by simp
next
  assume "generateContent TrendingRequest = Inl e"
  then show "getTrendingTopics generateContent =
      Inr [\<lparr>topic = str ''Error fetching topics.'', risk = str ''High'', score = Num 0\<rparr>]"
    by (rule getTrendingTopics_rejected)
qed

lemma split_lines_empty: "split_lines [] = [[]]"
  by (simp add: split_lines.simps)

lemma parse_line_empty: "parse_line [] = Inr None"
  by (simp add: line_eval)

text \<open>
  C10. When the model call succeeds and the response text is the empty string,
  \<open>getTrendingTopics\<close> returns the empty list, neither the placeholder record nor the
  error record.
\<close>

theorem empty_text_gives_empty_list:
  assumes "generateContent TrendingRequest = Inr (Some [])"
  shows "getTrendingTopics generateContent = Inr []"
proof -
  have "parse_lines (split_lines []) = Inr []"
    by (simp add: split_lines_empty parse_lines_Cons parse_lines_Nil parse_line_empty)
  from getTrendingTopics_answer [of generateContent, OF assms this] show ?thesis by simp
qed

text \<open>
  C8, as the code has it. When the model call succeeds and some line of the response text
  matches the pattern, every record \<open>getTrendingTopics\<close> returns has a risk that is a
  trimmed text (any text, not only one of the four levels) and a score that is the Number
  value of a non-empty run of decimal digits: the nearest double, so a non-negative
  integer or Infinity, never NaN and with no upper bound.
\<close>

theorem trending_records_shape:
  assumes "generateContent TrendingRequest = Inr (Some text)"
    and "\<exists>l \<in> set (split_lines text). matches_pattern l"
  shows "\<exists>recs. getTrendingTopics generateContent = Inr recs \<and> recs \<noteq> [] \<and>
           (\<forall>r \<in> set recs.
              trim (risk r) = risk r \<and>
              (\<exists>ds. ds \<noteq> [] \<and> (\<forall>c \<in> set ds. is_digit c) \<and>
                 score r = to_double (digits_value ds)) \<and>
              (score r = Infinity \<or> (\<exists>n. 0 \<le> n \<and> score r = Num n)))"
proof -
  from parse_lines_records obtain topics where
    t: "parse_lines (split_lines text) = Inr topics"
       "list_all2 (\<lambda>l r. parse_line l = Inr (Some r)) (filter matches_pattern (split_lines text)) topics"
    by blast
  from assms(2) have "filter matches_pattern (split_lines text) \<noteq> []"
    by (simp add: filter_empty_conv)
  with t(2) have n: "topics \<noteq> []" by auto
  with getTrendingTopics_answer [of generateContent, OF assms(1) t(1)]
  have g: "getTrendingTopics generateContent = Inr (take 5 topics)" by simp
  have "trim (risk r) = risk r \<and>
      (\<exists>ds. ds \<noteq> [] \<and> (\<forall>c \<in> set ds. is_digit c) \<and> score r = to_double (digits_value ds)) \<and>
      (score r = Infinity \<or> (\<exists>n. 0 \<le> n \<and> score r = Num n))"
    if "r \<in> set (take 5 topics)" for r
  proof -
    from that have "r \<in> set topics" by (rule in_set_takeD)
    with t(2) obtain l where "parse_line l = Inr (Some r)"
      by (auto simp: list_all2_conv_all_nth in_set_conv_nth)
    then show ?thesis by (rule parse_line_shape)
  qed
  with g n show ?thesis by auto
qed

lemma split_lines_one: "10 \<notin> set s \<Longrightarrow> split_lines s = [s]"
proof -
  assume "10 \<notin> set s"
  then have d: "dropWhile (\<lambda>c. c \<noteq> 10) s = []" by auto
  show ?thesis by (subst split_lines.simps) (simp add: d)
qed

lemma split_lines_six:
  "split_lines six_matching_text =
     [str ''A - Risk: High - Credibility: 40'',
      str ''B - Risk: Low - Credibility: 90'',
      str ''C - Risk: Medium - Credibility: 10'',
      str ''D - Risk: High - Credibility: 70'',
      str ''E - Risk: Low - Credibility: 20'',
      str ''F - Risk: Medium - Credibility: 60'']"
  by (simp add: six_matching_text_def str_def split_lines.simps)

lemma answering_request: "answering t request = Inr (Some t)"
  by (simp add: answering_def)

lemma rejecting_request: "rejecting e request = Inl e"
  by (simp add: rejecting_def)

text \<open>
  C3. The line parser gives, for the line of the specification, the record with topic
  ``Fake vaccine claim'', risk ``High'' and score 12, and the parser of a list that holds
  this one line gives that one record.
\<close>

theorem vaccine_line_record:
  "parse_line (str ''1. Fake vaccine claim - Risk: High - Credibility: 12'') =
     Inr (Some \<lparr>topic = str ''Fake vaccine claim'', risk = str ''High'', score = Num 12\<rparr>) \<and>
   parse_lines [str ''1. Fake vaccine claim - Risk: High - Credibility: 12''] =
     Inr [\<lparr>topic = str ''Fake vaccine claim'', risk = str ''High'', score = Num 12\<rparr>]"
proof -
  have "parse_line (str ''1. Fake vaccine claim - Risk: High - Credibility: 12'') =
     Inr (Some \<lparr>topic = str ''Fake vaccine claim'', risk = str ''High'', score = Num 12\<rparr>)"
    by (simp add: line_eval)
  then show ?thesis
    by (simp only: parse_lines_Cons parse_lines_Nil sum.case option.case simp_thms)
qed

text \<open>
  C4. For every list of lines the parser returns, without throwing, one record for each
  line that matches the pattern and nothing for the other lines: the list of records
  stands in one-to-one correspondence, position by position, with the list of the matching
  lines in their original order, each record being the one its line parses to. So, of
  seven lines of which two match, exactly the two records come back, in the order of
  their lines.
\<close>

theorem parse_lines_keeps_matching_lines_in_order:
  "\<exists>recs. parse_lines lines = Inr recs \<and>
     length recs = length (filter matches_pattern lines) \<and>
     list_all2 (\<lambda>l r. parse_line l = Inr (Some r)) (filter matches_pattern lines) recs \<and>
     (length lines = 7 \<and> length (filter matches_pattern lines) = 2 \<longrightarrow> length recs = 2)"
proof -
  from parse_lines_records obtain recs where
    r: "parse_lines lines = Inr recs"
       "list_all2 (\<lambda>l r. parse_line l = Inr (Some r)) (filter matches_pattern lines) recs"
    by blast
  from r(2) have "length recs = length (filter matches_pattern lines)"
    by (simp add: list_all2_lengthD)
  with r show ?thesis by simp
qed

lemma filter_seven_lines:
  "filter matches_pattern seven_lines =
     [str ''1. Moon hoax - Risk: High - Credibility: 12'',
      flat_earth_line]"
  by (simp add: seven_lines_def matches_pattern_eval parse_line_samples parse_line_empty)

theorem parse_lines_keeps_matching_lines_in_order_witness:
  "length seven_lines = 7 \<and> length (filter matches_pattern seven_lines) = 2 \<and>
   parse_lines seven_lines =
     Inr [\<lparr>topic = str ''Moon hoax'', risk = str ''High'', score = Num 12\<rparr>,
          \<lparr>topic = str ''Flat earth'', risk = str ''Low'', score = Num 80\<rparr>]"
proof -
  from parse_lines_keeps_matching_lines_in_order [of seven_lines] obtain recs where
    r: "parse_lines seven_lines = Inr recs"
       "list_all2 (\<lambda>l r. parse_line l = Inr (Some r)) (filter matches_pattern seven_lines) recs"
    by blast
  from r(2) have "recs = [\<lparr>topic = str ''Moon hoax'', risk = str ''High'', score = Num 12\<rparr>,
          \<lparr>topic = str ''Flat earth'', risk = str ''Low'', score = Num 80\<rparr>]"
    unfolding filter_seven_lines by (auto simp: list_all2_Cons1 parse_line_samples)
  with r(1) show ?thesis
    by (simp add: filter_seven_lines) (simp add: seven_lines_def)
qed

theorem first_five_matching_lines_witness:
  "answering six_matching_text TrendingRequest = Inr (Some six_matching_text) \<and>
   length (filter matches_pattern (split_lines six_matching_text)) > 5 \<and>
   getTrendingTopics (answering six_matching_text) =
     Inr [\<lparr>topic = str ''A'', risk = str ''High'', score = Num 40\<rparr>,
          \<lparr>topic = str ''B'', risk = str ''Low'', score = Num 90\<rparr>,
          \<lparr>topic = str ''C'', risk = str ''Medium'', score = Num 10\<rparr>,
          \<lparr>topic = str ''D'', risk = str ''High'', score = Num 70\<rparr>,
          \<lparr>topic = str ''E'', risk = str ''Low'', score = Num 20\<rparr>]"
proof -
  have f: "filter matches_pattern (split_lines six_matching_text) = split_lines six_matching_text"
    by (simp add: split_lines_six matches_pattern_eval parse_line_samples)
  have h1: "answering six_matching_text TrendingRequest = Inr (Some six_matching_text)"
    by (rule answering_request)
  have h2: "length (filter matches_pattern (split_lines six_matching_text)) > 5"
    unfolding f by (simp add: split_lines_six)
  from first_five_matching_lines [of "answering six_matching_text", OF h1 h2] obtain recs where
    r: "getTrendingTopics (answering six_matching_text) = Inr recs"
       "list_all2 (\<lambda>l r. parse_line l = Inr (Some r))
          (take 5 (filter matches_pattern (split_lines six_matching_text))) recs"
    by blast
  have t5: "take 5 (filter matches_pattern (split_lines six_matching_text)) =
     [str ''A - Risk: High - Credibility: 40'',
      str ''B - Risk: Low - Credibility: 90'',
      str ''C - Risk: Medium - Credibility: 10'',
      str ''D - Risk: High - Credibility: 70'',
      str ''E - Risk: Low - Credibility: 20'']"
    unfolding f by (simp add: split_lines_six)
  from r(2) have "recs =
        [\<lparr>topic = str ''A'', risk = str ''High'', score = Num 40\<rparr>,
          \<lparr>topic = str ''B'', risk = str ''Low'', score = Num 90\<rparr>,
          \<lparr>topic = str ''C'', risk = str ''Medium'', score = Num 10\<rparr>,
          \<lparr>topic = str ''D'', risk = str ''High'', score = Num 70\<rparr>,
          \<lparr>topic = str ''E'', risk = str ''Low'', score = Num 20\<rparr>]"
    unfolding t5 by (auto simp: list_all2_Cons1 parse_line_samples)
  with r(1) h1 h2 show ?thesis by simp
qed

theorem placeholder_and_error_record_witness:
  "answering (str ''No data.'') TrendingRequest = Inr (Some (str ''No data.'')) \<and>
   str ''No data.'' \<noteq> [] \<and>
   filter matches_pattern (split_lines (str ''No data.'')) = [] \<and>
   getTrendingTopics (answering (str ''No data.'')) =
     Inr [\<lparr>topic = str ''Could not parse trending topics.'', risk = str ''Medium'', score = Num 50\<rparr>] \<and>
   rejecting (ApiError (str ''503'')) TrendingRequest = Inl (ApiError (str ''503'')) \<and>
   getTrendingTopics (rejecting (ApiError (str ''503''))) =
     Inr [\<lparr>topic = str ''Error fetching topics.'', risk = str ''High'', score = Num 0\<rparr>]"
proof -
  have s: "split_lines (str ''No data.'') = [str ''No data.'']"
    by (rule split_lines_one) (simp add: str_def)
  have h1: "answering (str ''No data.'') TrendingRequest = Inr (Some (str ''No data.'')) \<and>
      str ''No data.'' \<noteq> [] \<and> filter matches_pattern (split_lines (str ''No data.'')) = []"
    unfolding s by (simp add: answering_request matches_pattern_eval parse_line_samples) (simp add: str_def)
  have h2: "rejecting (ApiError (str ''503'')) TrendingRequest = Inl (ApiError (str ''503''))"
    by (rule rejecting_request)
  from placeholder_and_error_record [of "answering (str ''No data.'')" "str ''No data.''"] h1
  have "getTrendingTopics (answering (str ''No data.'')) =
     Inr [\<lparr>topic = str ''Could not parse trending topics.'', risk = str ''Medium'', score = Num 50\<rparr>]"
    by blast
  moreover from placeholder_and_error_record [of "rejecting (ApiError (str ''503''))" _ "ApiError (str ''503'')"] h2
  have "getTrendingTopics (rejecting (ApiError (str ''503''))) =
     Inr [\<lparr>topic = str ''Error fetching topics.'', risk = str ''High'', score = Num 0\<rparr>]"
    by blast
  ultimately show ?thesis using h1 h2 by blast
qed

theorem empty_text_gives_empty_list_witness:
  "answering [] TrendingRequest = Inr (Some []) \<and> getTrendingTopics (answering []) = Inr []"
proof -
  have h: "answering [] TrendingRequest = Inr (Some [])"
    by (rule answering_request)
  from h empty_text_gives_empty_list [of "answering []", OF h] show ?thesis by simp
qed

text \<open>
  C8, as stated, fails. A response whose one line reads
  ``Hoax - Risk: Critical - Credibility: 250'' gives a record with risk ``Critical'',
  which is none of the four levels, and score 250, which is above 100.
\<close>

theorem risk_and_score_unchecked_counterexample:
  "getTrendingTopics (answering (str ''Hoax - Risk: Critical - Credibility: 250'')) =
     Inr [\<lparr>topic = str ''Hoax'', risk = str ''Critical'', score = Num 250\<rparr>] \<and>
   str ''Critical'' \<notin> {str ''High'', str ''Medium'', str ''Low'', str ''Unknown''} \<and>
   \<not> (250 :: int) \<le> 100"
proof -
  have s: "split_lines (str ''Hoax - Risk: Critical - Credibility: 250'') =
      [str ''Hoax - Risk: Critical - Credibility: 250'']"
    by (rule split_lines_one) (simp add: str_def)
  have p: "parse_lines (split_lines (str ''Hoax - Risk: Critical - Credibility: 250'')) =
      Inr [\<lparr>topic = str ''Hoax'', risk = str ''Critical'', score = Num 250\<rparr>]"
    unfolding s by (simp add: parse_lines_Cons parse_lines_Nil parse_line_samples)
  have "getTrendingTopics (answering (str ''Hoax - Risk: Critical - Credibility: 250'')) =
     Inr [\<lparr>topic = str ''Hoax'', risk = str ''Critical'', score = Num 250\<rparr>]"
    using getTrendingTopics_answer [OF answering_request p] by simp
  moreover have "str ''Critical'' \<notin> {str ''High'', str ''Medium'', str ''Low'', str ''Unknown''}"
    by (simp add: str_def)
  ultimately show ?thesis by simp
qed

lemma split_lines_cut:
  assumes "10 \<notin> set a"
  shows "split_lines (a @ 10 # rest) = a # split_lines rest"
proof -
  from assms have p: "\<forall>c \<in> set a. c \<noteq> 10" by auto
  then have d: "dropWhile (\<lambda>c. c \<noteq> 10) (a @ 10 # rest) = 10 # rest"
    by (simp add: dropWhile_append3)
  from p have t: "takeWhile (\<lambda>c. c \<noteq> 10) (a @ 10 # rest) = a"
    by (simp add: takeWhile_tail)
  show ?thesis by (subst split_lines.simps) (simp add: d t)
qed

lemma split_lines_scores:
  "split_lines scores_text = [vaccine_line, rounded_score_line, huge_score_line]"
proof -
  have "10 \<notin> set vaccine_line" "10 \<notin> set rounded_score_line" "10 \<notin> set huge_score_line"
    by (simp_all add: vaccine_line_def rounded_score_line_def huge_score_line_def str_def)
  then show ?thesis
    by (simp add: scores_text_def split_lines_cut split_lines_one)
qed

theorem trending_records_shape_witness:
  "answering scores_text TrendingRequest = Inr (Some scores_text) \<and>
   (\<exists>l \<in> set (split_lines scores_text). matches_pattern l) \<and>
   (\<exists>recs. getTrendingTopics (answering scores_text) = Inr recs \<and> recs \<noteq> [] \<and>
      (\<forall>r \<in> set recs.
         trim (risk r) = risk r \<and>
         (\<exists>ds. ds \<noteq> [] \<and> (\<forall>c \<in> set ds. is_digit c) \<and>
            score r = to_double (digits_value ds)) \<and>
         (score r = Infinity \<or> (\<exists>n. 0 \<le> n \<and> score r = Num n)))) \<and>
   getTrendingTopics (answering scores_text) =
     Inr [\<lparr>topic = str ''Fake vaccine claim'', risk = str ''High'', score = Num 12\<rparr>,
          \<lparr>topic = str ''R'', risk = str ''Low'', score = Num 9007199254740992\<rparr>,
          \<lparr>topic = str ''Z'', risk = str ''Low'', score = Infinity\<rparr>]"
proof -
  have h1: "answering scores_text TrendingRequest = Inr (Some scores_text)"
    by (rule answering_request)
  have h2: "\<exists>l \<in> set (split_lines scores_text). matches_pattern l"
    unfolding split_lines_scores by (simp add: matches_pattern_eval parse_line_samples)
  have p: "parse_lines (split_lines scores_text) =
     Inr [\<lparr>topic = str ''Fake vaccine claim'', risk = str ''High'', score = Num 12\<rparr>,
          \<lparr>topic = str ''R'', risk = str ''Low'', score = Num 9007199254740992\<rparr>,
          \<lparr>topic = str ''Z'', risk = str ''Low'', score = Infinity\<rparr>]"
    unfolding split_lines_scores
    by (simp add: parse_lines_Cons parse_lines_Nil parse_line_samples parse_line_rounded parse_line_huge)
  have g: "getTrendingTopics (answering scores_text) =
     Inr [\<lparr>topic = str ''Fake vaccine claim'', risk = str ''High'', score = Num 12\<rparr>,
          \<lparr>topic = str ''R'', risk = str ''Low'', score = Num 9007199254740992\<rparr>,
          \<lparr>topic = str ''Z'', risk = str ''Low'', score = Infinity\<rparr>]"
    using getTrendingTopics_answer [of "answering scores_text", OF h1 p] by simp
  from h1 h2 g trending_records_shape [of "answering scores_text", OF h1 h2] show ?thesis
    by (simp only: simp_thms)
qed

subsection \<open>The operations, the page and the loading of the module\<close>

lemma try_catch_value:
  "try_catch body (\<lambda>error. Inr fallback) = (case body of Inl e \<Rightarrow> Inr fallback | Inr v \<Rightarrow> Inr v)"
  by (simp add: try_catch_def)

lemma try_catch_never_throws: "\<not> isl (try_catch body (\<lambda>error. Inr fallback))"
  by (simp add: try_catch_def split: sum.splits)

lemma json_call_fallback:
  assumes "call_fails generateContent parse request"
  shows "try_catch
       (and_then (generateContent request) (\<lambda>response_text. cleanAndParseJson parse response_text))
       (\<lambda>error. Inr fallback) = Inr fallback"
  using assms
  by (auto simp: call_fails_def try_catch_def and_then_def isl_def split: sum.splits)

text \<open>
  C2. For every gateway, every parser and every input, each of the four analysis
  operations returns a value and does not throw; and whenever the model call fails or the
  parsing of its response fails, the value is the fallback of the operation (for the
  image analysis: classification ``Uncertain'', confidence 0).
\<close>

theorem analysis_operations_fall_back:
  "\<not> isl (analyzeImageForAI generateContent parse base64Image mimeType) \<and>
   \<not> isl (analyzeVoiceForAI generateContent parse base64Audio mimeType) \<and>
   \<not> isl (analyzeArticleContent generateContent parse content) \<and>
   \<not> isl (generateAwarenessTemplateText generateContent parse topic_prompt) \<and>
   (call_fails generateContent parse (ImageRequest mimeType base64Image) \<longrightarrow>
      analyzeImageForAI generateContent parse base64Image mimeType =
        Inr (JObj
          [(''classification'', JStr (str ''Uncertain'')),
           (''confidence'', JNum 0),
           (''explanation'', JStr (str ''An error occurred during analysis.''))])) \<and>
   (call_fails generateContent parse (VoiceRequest mimeType base64Audio) \<longrightarrow>
      analyzeVoiceForAI generateContent parse base64Audio mimeType =
        Inr (JObj
          [(''classification'', JStr (str ''Uncertain'')),
           (''confidence'', JNum 0),
           (''explanation'', JStr (str ''An error occurred during voice analysis.''))])) \<and>
   (call_fails generateContent parse (ArticleRequest content) \<longrightarrow>
      analyzeArticleContent generateContent parse content =
        Inr (JObj
          [(''riskLevel'', JStr (str ''High'')),
           (''credibilityScore'', JNum 0),
           (''tags'', JArr []),
           (''summary'', JStr (str ''Error during analysis.'')),
           (''claims'', JArr [])])) \<and>
   (call_fails generateContent parse (TemplateRequest topic_prompt) \<longrightarrow>
      generateAwarenessTemplateText generateContent parse topic_prompt =
        Inr (JObj
          [(''title'', JStr (str ''Error'')),
           (''highlights'', JArr [JStr (str ''Could not generate content.'')]),
           (''tips'', JArr [])]))"
  unfolding analyzeImageForAI_def analyzeVoiceForAI_def analyzeArticleContent_def
    generateAwarenessTemplateText_def
  by (intro conjI impI try_catch_never_throws json_call_fallback)

theorem analysis_operations_fall_back_witness:
  "call_fails (rejecting (ApiError (str ''503''))) sample_parser (ImageRequest (str ''image/png'') (str ''AAAA'')) \<and>
   call_fails (rejecting (ApiError (str ''503''))) sample_parser (VoiceRequest (str ''image/png'') (str ''BBBB'')) \<and>
   call_fails (rejecting (ApiError (str ''503''))) sample_parser (ArticleRequest (str ''Some article'')) \<and>
   call_fails (rejecting (ApiError (str ''503''))) sample_parser (TemplateRequest (str ''Vaccines'')) \<and>
   call_fails (answering (str ''not json'')) sample_parser (ImageRequest (str ''image/png'') (str ''AAAA'')) \<and>
   analyzeImageForAI (answering (str ''not json'')) sample_parser (str ''AAAA'') (str ''image/png'') =
     Inr (JObj
       [(''classification'', JStr (str ''Uncertain'')),
        (''confidence'', JNum (0 :: int)),
        (''explanation'', JStr (str ''An error occurred during analysis.''))]) \<and>
   analyzeImageForAI (rejecting (ApiError (str ''503''))) sample_parser (str ''AAAA'') (str ''image/png'') =
     Inr (JObj
       [(''classification'', JStr (str ''Uncertain'')),
        (''confidence'', JNum (0 :: int)),
        (''explanation'', JStr (str ''An error occurred during analysis.''))]) \<and>
   analyzeVoiceForAI (rejecting (ApiError (str ''503''))) sample_parser (str ''BBBB'') (str ''image/png'') =
     Inr (JObj
       [(''classification'', JStr (str ''Uncertain'')),
        (''confidence'', JNum (0 :: int)),
        (''explanation'', JStr (str ''An error occurred during voice analysis.''))]) \<and>
   analyzeArticleContent (rejecting (ApiError (str ''503''))) sample_parser (str ''Some article'') =
     Inr (JObj
       [(''riskLevel'', JStr (str ''High'')),
        (''credibilityScore'', JNum (0 :: int)),
        (''tags'', JArr []),
        (''summary'', JStr (str ''Error during analysis.'')),
        (''claims'', JArr [])]) \<and>
   generateAwarenessTemplateText (rejecting (ApiError (str ''503''))) sample_parser (str ''Vaccines'') =
     Inr (JObj
       [(''title'', JStr (str ''Error'')),
        (''highlights'', JArr [JStr (str ''Could not generate content.'')]),
        (''tips'', JArr [])] :: int json)"
proof -
  have r: "call_fails (rejecting (ApiError (str ''503''))) sample_parser request"
    for request
    by (simp add: call_fails_def rejecting_def)
  have a: "call_fails (answering (str ''not json'')) sample_parser
      (ImageRequest (str ''image/png'') (str ''AAAA''))"
    by (simp add: call_fails_def answering_def cleanAndParseJson_def sample_parser_def
        parse_only_def startsWith_def trim_def str_def is_space_def)
  from
    analysis_operations_fall_back [of "rejecting (ApiError (str ''503''))"
      sample_parser "str ''AAAA''" "str ''image/png''"
      "str ''BBBB''" "str ''Some article''" "str ''Vaccines''"]
    analysis_operations_fall_back [of "answering (str ''not json'')"
      sample_parser "str ''AAAA''" "str ''image/png''"
      "str ''BBBB''" "str ''Some article''" "str ''Vaccines''"]
  show ?thesis by (simp add: r a)
qed

lemma trim_blank:
  assumes "\<forall>c \<in> set s. is_space c"
  shows "trim s = []"
proof -
  from assms have d: "dropWhile is_space s = []" by (induction s) simp_all
  show ?thesis unfolding trim_def d by simp
qed

text \<open>
  C7. For every prompt that is empty or holds white space only, \<open>handleGenerate\<close> sets
  the error ``Prompt cannot be empty.'', changes nothing else of the page, and returns
  without having called the service function \<open>generateAwarenessTemplateText\<close> (whatever
  that function is), so that no request reaches the gateway.
\<close>

theorem blank_prompt_rejected_before_gateway:
  assumes "\<forall>c \<in> set (prompt st). is_space c"
  shows "handleGenerate generate st = (st\<lparr>error := Some (str ''Prompt cannot be empty.'')\<rparr>, [])"
  using trim_blank [OF assms] by (simp add: handleGenerate_def falsy_def)

theorem blank_prompt_rejected_before_gateway_witness:
  "is_space 32 \<and> is_space 9 \<and>
   handleGenerate
     (generateAwarenessTemplateText (answering (str ''{}'')) sample_parser)
     \<lparr>prompt = [32, 9, 32], isLoading = False, result = None, error = None, isCopied = False\<rparr> =
   (\<lparr>prompt = [32, 9, 32], isLoading = False, result = None,
     error = Some (str ''Prompt cannot be empty.''), isCopied = False\<rparr>, [])"
proof -
  have s: "is_space 32 \<and> is_space 9"
    by (simp add: is_space_def)
  then have h: "\<forall>c \<in> set (prompt \<lparr>prompt = [32, 9, 32], isLoading = False,
      result = (None :: int json option), error = None, isCopied = False\<rparr>). is_space c"
    by simp
  from s blank_prompt_rejected_before_gateway [OF h,
      of "generateAwarenessTemplateText (answering (str ''{}'')) sample_parser"]
  show ?thesis by simp
qed

text \<open>
  C9. When the variable \<open>API_KEY\<close> is not set, loading the service module throws the
  error ``API_KEY environment variable not set'' and has constructed nothing: neither the
  client nor the chat session. Loading throws in no other case than a key that is not set
  or empty, and none of the seven operations the module exports throws, whatever the
  gateway and the parser do.
\<close>

theorem missing_key_is_the_only_fatal_error:
  "(env ''API_KEY'' = None \<longrightarrow>
      load_service env = (Inl (Error (str ''API_KEY environment variable not set'')), [])) \<and>
   (isl (fst (load_service env)) \<longleftrightarrow> falsy (env ''API_KEY'')) \<and>
   (isl (fst (load_service env)) \<longrightarrow> snd (load_service env) = []) \<and>
   \<not> isl (getChatbotResponse sendMessage message) \<and>
   \<not> isl (analyzeImageForAI generateContent parse base64Image mimeType) \<and>
   \<not> isl (analyzeVoiceForAI generateContent parse base64Audio mimeType) \<and>
   \<not> isl (analyzeArticleContent generateContent parse content) \<and>
   \<not> isl (generateAwarenessTemplateText generateContent parse topic_prompt) \<and>
   \<not> isl (getTrendingTopics generateContent) \<and>
   \<not> isl (getVoiceAssistantResponse generateContent query)"
proof -
  have "env ''API_KEY'' = None \<longrightarrow>
      load_service env = (Inl (Error (str ''API_KEY environment variable not set'')), [])"
    by (simp add: load_service_def falsy_def)
  moreover have "isl (fst (load_service env)) \<longleftrightarrow> falsy (env ''API_KEY'')"
    by (simp add: load_service_def Let_def)
  moreover have "isl (fst (load_service env)) \<longrightarrow> snd (load_service env) = []"
    by (simp add: load_service_def Let_def)
  moreover have "\<not> isl (getChatbotResponse sendMessage message)"
    unfolding getChatbotResponse_def by (rule try_catch_never_throws)
  moreover have "\<not> isl (analyzeImageForAI generateContent parse base64Image mimeType)"
    unfolding analyzeImageForAI_def by (rule try_catch_never_throws)
  moreover have "\<not> isl (analyzeVoiceForAI generateContent parse base64Audio mimeType)"
    unfolding analyzeVoiceForAI_def by (rule try_catch_never_throws)
  moreover have "\<not> isl (analyzeArticleContent generateContent parse content)"
    unfolding analyzeArticleContent_def by (rule try_catch_never_throws)
  moreover have "\<not> isl (generateAwarenessTemplateText generateContent parse topic_prompt)"
    unfolding generateAwarenessTemplateText_def by (rule try_catch_never_throws)
  moreover have "\<not> isl (getTrendingTopics generateContent)"
    unfolding getTrendingTopics_def by (rule try_catch_never_throws)
  moreover have "\<not> isl (getVoiceAssistantResponse generateContent query)"
    unfolding getVoiceAssistantResponse_def by (rule try_catch_never_throws)
  ultimately show ?thesis by blast
qed

theorem missing_key_is_the_only_fatal_error_witness:
  "Map.empty ''API_KEY'' = (None :: jsstring option) \<and>
   load_service Map.empty = (Inl (Error (str ''API_KEY environment variable not set'')), []) \<and>
   isl (fst (load_service Map.empty)) \<and> falsy (Map.empty ''API_KEY'') \<and>
   snd (load_service Map.empty) = []"
proof -
  have h: "Map.empty ''API_KEY'' = (None :: jsstring option)" by simp
  from missing_key_is_the_only_fatal_error [of Map.empty] h
  have "load_service Map.empty = (Inl (Error (str ''API_KEY environment variable not set'')), [])"
    by blast
  with missing_key_is_the_only_fatal_error [of Map.empty] h show ?thesis
    by (simp add: falsy_def)
qed

end
